theory Spec2Isabelle
  imports Main "HOL-Library.Word" "HOL-Library.AList"
begin

section \<open>JavaScript strings\<close>

text \<open>
  A JavaScript string is a sequence of UTF-16 code units. String literals of the
  source are written \<open>js ''...''\<close> (ASCII only) or as explicit code units.
\<close>

type_synonym jsstring = "16 word list"

definition js :: "string \<Rightarrow> jsstring" where
  "js s = map of_char s"

text \<open>
  \<^verbatim>\<open>String.prototype.trim\<close> removes the leading and trailing code units that are
  WhiteSpace or LineTerminator: TAB, LF, VT, FF, CR, SP, NBSP, U+1680, U+2000..U+200A,
  LS, PS, U+202F, U+205F, U+3000 and the byte order mark U+FEFF.
\<close>

definition is_trim_space :: "16 word \<Rightarrow> bool" where
  "is_trim_space c \<longleftrightarrow>
     c \<in> set [0x0009, 0x000A, 0x000B, 0x000C, 0x000D, 0x0020, 0x00A0, 0x1680,
              0x2028, 0x2029, 0x202F, 0x205F, 0x3000, 0xFEFF]
     \<or> (0x2000 \<le> c \<and> c \<le> 0x200A)"

definition trim :: "jsstring \<Rightarrow> jsstring" where
  "trim s = rev (dropWhile is_trim_space (rev (dropWhile is_trim_space s)))"

text \<open>
  \<^verbatim>\<open>s.split('T')[0]\<close>: the part of \<open>s\<close> before its first \<open>T\<close> (all of \<open>s\<close> when it
  has none).
\<close>

definition split_T_0 :: "jsstring \<Rightarrow> jsstring" where
  "split_T_0 s = takeWhile (\<lambda>c. c \<noteq> 0x54) s"

section \<open>The clock: \<^verbatim>\<open>new Date().toISOString()\<close>\<close>

text \<open>
  \<^verbatim>\<open>new Date()\<close> reads the wall clock; the model takes the instant as an input, given
  by its UTC calendar fields (the month counted from 1, as it is printed).
  \<^verbatim>\<open>toISOString\<close> prints \<^verbatim>\<open>YYYY-MM-DDTHH:mm:ss.sssZ\<close>, the year with four digits when it
  lies in 0..9999 and with a sign and six digits otherwise.
\<close>

record utc_time =
  year :: int
  month :: nat
  day :: nat
  hours :: nat
  minutes :: nat
  seconds :: nat
  millis :: nat

definition digit :: "nat \<Rightarrow> 16 word" where
  "digit n = of_nat (48 + n mod 10)"

definition pad2 :: "nat \<Rightarrow> jsstring" where
  "pad2 n = [digit (n div 10), digit n]"

definition pad3 :: "nat \<Rightarrow> jsstring" where
  "pad3 n = [digit (n div 100), digit (n div 10), digit n]"

definition pad4 :: "nat \<Rightarrow> jsstring" where
  "pad4 n = [digit (n div 1000), digit (n div 100), digit (n div 10), digit n]"

definition pad6 :: "nat \<Rightarrow> jsstring" where
  "pad6 n = [digit (n div 100000), digit (n div 10000), digit (n div 1000),
             digit (n div 100), digit (n div 10), digit n]"

definition iso_year :: "int \<Rightarrow> jsstring" where
  "iso_year y =
     (if 0 \<le> y \<and> y \<le> 9999 then pad4 (nat y)
      else (if y < 0 then 0x2D else 0x2B) # pad6 (nat \<bar>y\<bar>))"

definition iso_date :: "utc_time \<Rightarrow> jsstring" where
  "iso_date d = iso_year (year d) @ [0x2D] @ pad2 (month d) @ [0x2D] @ pad2 (day d)"

definition iso_time :: "utc_time \<Rightarrow> jsstring" where
  "iso_time d = pad2 (hours d) @ [0x3A] @ pad2 (minutes d) @ [0x3A] @ pad2 (seconds d)
                @ [0x2E] @ pad3 (millis d) @ [0x5A]"

definition toISOString :: "utc_time \<Rightarrow> jsstring" where
  "toISOString d = iso_date d @ [0x54] @ iso_time d"

section \<open>Tasks\<close>

text \<open>
  The objects built by \<^verbatim>\<open>addTodo\<close>: \<^verbatim>\<open>{ id, text, completed, date }\<close>. The fields
  \<^verbatim>\<open>id\<close> and \<^verbatim>\<open>text\<close> carry a suffix, their names being taken in Isabelle.
\<close>

record todo =
  id_todo :: jsstring
  text_todo :: jsstring
  completed :: bool
  date :: jsstring

section \<open>\<^verbatim>\<open>JSON.stringify\<close> on a list of tasks\<close>

text \<open>
  \<^verbatim>\<open>QuoteJSONString\<close> walks the code points of the string. A surrogate pair is copied
  as it is; a lone surrogate and a control character without a short escape are
  written \<^verbatim>\<open>\uXXXX\<close> with lower-case hexadecimal digits.
\<close>

definition is_lead :: "16 word \<Rightarrow> bool" where
  "is_lead c \<longleftrightarrow> 0xD800 \<le> c \<and> c \<le> 0xDBFF"

definition is_trail :: "16 word \<Rightarrow> bool" where
  "is_trail c \<longleftrightarrow> 0xDC00 \<le> c \<and> c \<le> 0xDFFF"

definition hexdigit :: "nat \<Rightarrow> 16 word" where
  "hexdigit n = (if n < 10 then of_nat (48 + n) else of_nat (87 + n))"

definition UnicodeEscape :: "16 word \<Rightarrow> jsstring" where
  "UnicodeEscape c =
     [0x5C, 0x75, hexdigit (unat c div 4096), hexdigit (unat c div 256 mod 16),
      hexdigit (unat c div 16 mod 16), hexdigit (unat c mod 16)]"

definition quote_unit :: "16 word \<Rightarrow> jsstring" where
  "quote_unit c =
     (if c = 0x08 then [0x5C, 0x62]
      else if c = 0x09 then [0x5C, 0x74]
      else if c = 0x0A then [0x5C, 0x6E]
      else if c = 0x0C then [0x5C, 0x66]
      else if c = 0x0D then [0x5C, 0x72]
      else if c = 0x22 then [0x5C, 0x22]
      else if c = 0x5C then [0x5C, 0x5C]
      else if c < 0x20 \<or> is_lead c \<or> is_trail c then UnicodeEscape c
      else [c])"

fun quote_body :: "jsstring \<Rightarrow> jsstring" where
  "quote_body [] = []"
| "quote_body [c] = quote_unit c"
| "quote_body (c # d # cs) =
     (if is_lead c \<and> is_trail d then c # d # quote_body cs
      else quote_unit c @ quote_body (d # cs))"

definition QuoteJSONString :: "jsstring \<Rightarrow> jsstring" where
  "QuoteJSONString s = [0x22] @ quote_body s @ [0x22]"

text \<open>
  \<^verbatim>\<open>SerializeJSONObject\<close> on a task: its four properties in creation order, without
  white space. \<^verbatim>\<open>SerializeJSONArray\<close>: the elements separated by commas.
\<close>

definition SerializeJSONObject :: "todo \<Rightarrow> jsstring" where
  "SerializeJSONObject t =
     js ''{'' @ QuoteJSONString (js ''id'') @ js '':'' @ QuoteJSONString (id_todo t)
     @ js '','' @ QuoteJSONString (js ''text'') @ js '':'' @ QuoteJSONString (text_todo t)
     @ js '','' @ QuoteJSONString (js ''completed'') @ js '':''
       @ (if completed t then js ''true'' else js ''false'')
     @ js '','' @ QuoteJSONString (js ''date'') @ js '':'' @ QuoteJSONString (date t)
     @ js ''}''"

fun join_comma :: "jsstring list \<Rightarrow> jsstring" where
  "join_comma [] = []"
| "join_comma [x] = x"
| "join_comma (x # y # ys) = x @ js '','' @ join_comma (y # ys)"

definition JSON_stringify :: "todo list \<Rightarrow> jsstring" where
  "JSON_stringify ts = js ''['' @ join_comma (map SerializeJSONObject ts) @ js '']''"

section \<open>\<^verbatim>\<open>JSON.parse\<close>\<close>

text \<open>
  The value \<^verbatim>\<open>JSON.parse\<close> returns. An object is the list of its properties in
  creation order. A number is kept as the text of its literal: its rounding to a
  double is not modelled, and no property of a task is a number.
\<close>

datatype json =
    JNull
  | JBool bool
  | JNum jsstring
  | JStr jsstring
  | JArr "json list"
  | JObj "(jsstring \<times> json) list"

datatype error = SyntaxError | QuotaExceededError

datatype token =
    TLBrack | TRBrack | TLBrace | TRBrace | TColon | TComma
  | TStr jsstring | TNum jsstring | TTrue | TFalse | TNull

definition is_digit :: "16 word \<Rightarrow> bool" where
  "is_digit c \<longleftrightarrow> 0x30 \<le> c \<and> c \<le> 0x39"

definition hexval :: "16 word \<Rightarrow> nat option" where
  "hexval c =
     (if 0x30 \<le> c \<and> c \<le> 0x39 then Some (unat c - 48)
      else if 0x61 \<le> c \<and> c \<le> 0x66 then Some (unat c - 87)
      else if 0x41 \<le> c \<and> c \<le> 0x46 then Some (unat c - 55)
      else None)"

definition unescape :: "16 word \<Rightarrow> 16 word option" where
  "unescape e =
     (if e = 0x22 then Some 0x22
      else if e = 0x5C then Some 0x5C
      else if e = 0x2F then Some 0x2F
      else if e = 0x62 then Some 0x08
      else if e = 0x66 then Some 0x0C
      else if e = 0x6E then Some 0x0A
      else if e = 0x72 then Some 0x0D
      else if e = 0x74 then Some 0x09
      else None)"

text \<open>
  \<open>lex_string\<close> reads a string literal after its opening quote. It returns the string
  denoted and the number of code units read, the closing quote included.
\<close>

fun lex_string :: "jsstring \<Rightarrow> (jsstring \<times> nat) option" where
  "lex_string [] = None"
| "lex_string (c # cs) =
     (if c = 0x22 then Some ([], 1)
      else if c = 0x5C then
        (case cs of
           [] \<Rightarrow> None
         | e # cs' \<Rightarrow>
             if e = 0x75 then
               (case cs' of
                  h1 # h2 # h3 # h4 # cs'' \<Rightarrow>
                    (case (hexval h1, hexval h2, hexval h3, hexval h4) of
                       (Some a, Some b, Some c', Some d) \<Rightarrow>
                         map_option
                           (\<lambda>(s, n). (of_nat (a * 4096 + b * 256 + c' * 16 + d) # s, n + 6))
                           (lex_string cs'')
                     | _ \<Rightarrow> None)
                | _ \<Rightarrow> None)
             else
               (case unescape e of
                  None \<Rightarrow> None
                | Some u \<Rightarrow> map_option (\<lambda>(s, n). (u # s, n + 2)) (lex_string cs')))
      else if c < 0x20 then None
      else map_option (\<lambda>(s, n). (c # s, n + 1)) (lex_string cs))"

text \<open>
  The length of the number literal at the head of the text:
  \<^verbatim>\<open>-? (0 | [1-9][0-9]*) (. [0-9]+)? ([eE] [+-]? [0-9]+)?\<close>.
\<close>

definition digits_len :: "jsstring \<Rightarrow> nat" where
  "digits_len s = length (takeWhile is_digit s)"

definition frac_len :: "jsstring \<Rightarrow> nat option" where
  "frac_len s =
     (case s of
        [] \<Rightarrow> Some 0
      | c # r \<Rightarrow>
          if c = 0x2E then (if digits_len r = 0 then None else Some (1 + digits_len r))
          else Some 0)"

definition exp_len :: "jsstring \<Rightarrow> nat option" where
  "exp_len s =
     (case s of
        [] \<Rightarrow> Some 0
      | c # r \<Rightarrow>
          if c = 0x65 \<or> c = 0x45 then
            (let sg = (case r of [] \<Rightarrow> 0 | d # _ \<Rightarrow> if d = 0x2B \<or> d = 0x2D then 1 else 0);
                 k = digits_len (drop sg r)
             in if k = 0 then None else Some (1 + sg + k))
          else Some 0)"

definition number_len :: "jsstring \<Rightarrow> nat option" where
  "number_len s =
     (let m = (case s of [] \<Rightarrow> 0 | c # _ \<Rightarrow> if c = 0x2D then 1 else 0);
          s1 = drop m s
      in case s1 of
           [] \<Rightarrow> None
         | c # r \<Rightarrow>
             if \<not> is_digit c then None
             else
               (let i = (if c = 0x30 then 1 else 1 + digits_len r) in
                case frac_len (drop i s1) of
                  None \<Rightarrow> None
                | Some f \<Rightarrow>
                    (case exp_len (drop (i + f) s1) of
                       None \<Rightarrow> None
                     | Some e \<Rightarrow> Some (m + i + f + e))))"

fun lex :: "jsstring \<Rightarrow> token list option" where
  "lex [] = Some []"
| "lex (c # cs) =
     (if c = 0x20 \<or> c = 0x09 \<or> c = 0x0A \<or> c = 0x0D then lex cs
      else if c = 0x5B then map_option (Cons TLBrack) (lex cs)
      else if c = 0x5D then map_option (Cons TRBrack) (lex cs)
      else if c = 0x7B then map_option (Cons TLBrace) (lex cs)
      else if c = 0x7D then map_option (Cons TRBrace) (lex cs)
      else if c = 0x3A then map_option (Cons TColon) (lex cs)
      else if c = 0x2C then map_option (Cons TComma) (lex cs)
      else if c = 0x22 then
        (case lex_string cs of
           None \<Rightarrow> None
         | Some (s, n) \<Rightarrow> map_option (Cons (TStr s)) (lex (drop n cs)))
      else if c = 0x74 then
        (if take 3 cs = js ''rue'' then map_option (Cons TTrue) (lex (drop 3 cs)) else None)
      else if c = 0x66 then
        (if take 4 cs = js ''alse'' then map_option (Cons TFalse) (lex (drop 4 cs)) else None)
      else if c = 0x6E then
        (if take 3 cs = js ''ull'' then map_option (Cons TNull) (lex (drop 3 cs)) else None)
      else if c = 0x2D \<or> is_digit c then
        (case number_len (c # cs) of
           None \<Rightarrow> None
         | Some n \<Rightarrow> map_option (Cons (TNum (take n (c # cs)))) (lex (drop (n - 1) cs)))
      else None)"

text \<open>
  The grammar of values, as a machine over the tokens with a stack of the arrays and
  objects that are open. A property that occurs twice keeps its first place and takes
  its last value.
\<close>

datatype frame =
    InArr "json list"
  | InObj "(jsstring \<times> json) list"
  | InMember "(jsstring \<times> json) list" jsstring

datatype mode = WantValue | WantValueOrClose | WantKeyOrClose | WantKey | WantColon | AfterValue

datatype pstate = PS mode "frame list" | Done json

fun deliver :: "json \<Rightarrow> frame list \<Rightarrow> pstate option" where
  "deliver v [] = Some (Done v)"
| "deliver v (InArr es # st) = Some (PS AfterValue (InArr (v # es) # st))"
| "deliver v (InMember ms k # st) = Some (PS AfterValue (InObj (AList.update k v ms) # st))"
| "deliver v (InObj ms # st) = None"

definition wants_value :: "mode \<Rightarrow> bool" where
  "wants_value m \<longleftrightarrow> m = WantValue \<or> m = WantValueOrClose"

fun step :: "pstate \<Rightarrow> token \<Rightarrow> pstate option" where
  "step (Done v) t = None"
| "step (PS m st) TLBrack =
     (if wants_value m then Some (PS WantValueOrClose (InArr [] # st)) else None)"
| "step (PS m st) TLBrace =
     (if wants_value m then Some (PS WantKeyOrClose (InObj [] # st)) else None)"
| "step (PS m st) (TStr s) =
     (if wants_value m then deliver (JStr s) st
      else if m = WantKeyOrClose \<or> m = WantKey then
        (case st of InObj ms # st' \<Rightarrow> Some (PS WantColon (InMember ms s # st')) | _ \<Rightarrow> None)
      else None)"
| "step (PS m st) (TNum n) = (if wants_value m then deliver (JNum n) st else None)"
| "step (PS m st) TTrue = (if wants_value m then deliver (JBool True) st else None)"
| "step (PS m st) TFalse = (if wants_value m then deliver (JBool False) st else None)"
| "step (PS m st) TNull = (if wants_value m then deliver JNull st else None)"
| "step (PS m st) TColon = (if m = WantColon then Some (PS WantValue st) else None)"
| "step (PS m st) TComma =
     (if m = AfterValue then
        (case st of
           InArr es # st' \<Rightarrow> Some (PS WantValue st)
         | InObj ms # st' \<Rightarrow> Some (PS WantKey st)
         | _ \<Rightarrow> None)
      else None)"
| "step (PS m st) TRBrack =
     (if m = WantValueOrClose \<or> m = AfterValue then
        (case st of InArr es # st' \<Rightarrow> deliver (JArr (rev es)) st' | _ \<Rightarrow> None)
      else None)"
| "step (PS m st) TRBrace =
     (if m = WantKeyOrClose \<or> m = AfterValue then
        (case st of InObj ms # st' \<Rightarrow> deliver (JObj ms) st' | _ \<Rightarrow> None)
      else None)"

fun run :: "pstate \<Rightarrow> token list \<Rightarrow> pstate option" where
  "run p [] = Some p"
| "run p (t # ts) = (case step p t of None \<Rightarrow> None | Some p' \<Rightarrow> run p' ts)"

definition JSON_parse :: "jsstring \<Rightarrow> error + json" where
  "JSON_parse s =
     (case lex s of
        None \<Rightarrow> Inl SyntaxError
      | Some ts \<Rightarrow>
          (case run (PS WantValue []) ts of
             Some (Done v) \<Rightarrow> Inr v
           | _ \<Rightarrow> Inl SyntaxError))"

text \<open>The JavaScript value of a task, and of the array \<^verbatim>\<open>todos\<close>.\<close>

definition todo_value :: "todo \<Rightarrow> json" where
  "todo_value t =
     JObj [(js ''id'', JStr (id_todo t)), (js ''text'', JStr (text_todo t)),
           (js ''completed'', JBool (completed t)), (js ''date'', JStr (date t))]"

definition todos_value :: "todo list \<Rightarrow> json" where
  "todos_value ts = JArr (map todo_value ts)"

section \<open>The component \<^verbatim>\<open>Todo\<close>\<close>

text \<open>
  The lazy initializer of the \<^verbatim>\<open>todos\<close> state:
  \<^verbatim>\<open>stored ? JSON.parse(stored) : []\<close>, where \<^verbatim>\<open>localStorage.getItem\<close> has returned
  \<^verbatim>\<open>null\<close> (\<open>None\<close>) or a string. The empty string is falsy. An exception of
  \<^verbatim>\<open>JSON.parse\<close> is not caught.
\<close>

definition initial_todos :: "jsstring option \<Rightarrow> error + json" where
  "initial_todos stored =
     (case stored of
        None \<Rightarrow> Inr (JArr [])
      | Some s \<Rightarrow> if s = [] then Inr (JArr []) else JSON_parse s)"

text \<open>
  The state of a mounted component and of the storage slot it writes.
  \<open>todos_ref\<close> is the identity of the array held in \<^verbatim>\<open>todos\<close>: every array the
  handlers build is a new object. \<open>effect_dep\<close> is the identity the persistence
  effect saw when it last ran (\<open>None\<close> before the first run): React runs the effect after
  a render when the dependency \<^verbatim>\<open>[todos]\<close> has changed identity.
  \<open>storage\<close> is the item \<^verbatim>\<open>"todos"\<close> of \<^verbatim>\<open>localStorage\<close>, and \<open>setItem_calls\<close> the
  values passed to \<^verbatim>\<open>setItem\<close> so far, oldest first, whether the call returned or
  raised. \<open>quota\<close> is the length of the longest text the storage accepts for the item
  (0 when it accepts none).
\<close>

record state =
  todos :: "todo list"
  todos_ref :: nat
  inputValue :: jsstring
  inputDate :: jsstring
  effect_dep :: "nat option"
  storage :: "jsstring option"
  setItem_calls :: "jsstring list"
  quota :: nat

text \<open>
  What a step leaves: \<open>Inr s\<close> when it returns, \<open>Inl (e, s)\<close> when it raises \<open>e\<close>.
  Nothing in the component catches an exception, so a raise in the effect unmounts the
  component; \<open>s\<close> is then what is left behind: the storage, and the fields of the
  component as its last render had them. \<open>state_after\<close> reads the state in both cases.
\<close>

definition state_after :: "error \<times> state + state \<Rightarrow> state" where
  "state_after r = (case r of Inl (e, s) \<Rightarrow> s | Inr s \<Rightarrow> s)"

text \<open>
  \<^verbatim>\<open>localStorage.setItem("todos", v)\<close>: it stores \<open>v\<close>, or raises
  \<^verbatim>\<open>QuotaExceededError\<close> and leaves the item as it was.
\<close>

definition setItem :: "jsstring \<Rightarrow> state \<Rightarrow> error \<times> state + state" where
  "setItem v s =
     (let s' = s\<lparr>setItem_calls := setItem_calls s @ [v]\<rparr> in
      if length v \<le> quota s then Inr (s'\<lparr>storage := Some v\<rparr>)
      else Inl (QuotaExceededError, s'))"

definition setTodos :: "(todo list \<Rightarrow> todo list) \<Rightarrow> state \<Rightarrow> state" where
  "setTodos f s = s\<lparr>todos := f (todos s), todos_ref := Suc (todos_ref s)\<rparr>"

definition setInputValue :: "jsstring \<Rightarrow> state \<Rightarrow> state" where
  "setInputValue v s = s\<lparr>inputValue := v\<rparr>"

definition setInputDate :: "jsstring \<Rightarrow> state \<Rightarrow> state" where
  "setInputDate v s = s\<lparr>inputDate := v\<rparr>"

text \<open>
  \<^verbatim>\<open>addTodo\<close>. Its two inputs from the environment are the result of
  \<^verbatim>\<open>crypto.randomUUID()\<close> and the instant read by \<^verbatim>\<open>new Date()\<close>.
  \<^verbatim>\<open>inputDate || ...\<close> takes the right operand when \<^verbatim>\<open>inputDate\<close> is the empty string.
\<close>

definition addTodo :: "jsstring \<Rightarrow> utc_time \<Rightarrow> state \<Rightarrow> state" where
  "addTodo uuid now s =
     (let text = trim (inputValue s) in
      if text = [] then s
      else
        setInputDate []
          (setInputValue []
            (setTodos
              (\<lambda>_. todos s @
                 [\<lparr>id_todo = uuid, text_todo = text, completed = False,
                   date = (if inputDate s \<noteq> [] then inputDate s
                           else split_T_0 (toISOString now))\<rparr>])
              s)))"

definition toggleTodo :: "jsstring \<Rightarrow> state \<Rightarrow> state" where
  "toggleTodo i =
     setTodos (map (\<lambda>t. if id_todo t = i then t\<lparr>completed := \<not> completed t\<rparr> else t))"

definition deleteTodo :: "jsstring \<Rightarrow> state \<Rightarrow> state" where
  "deleteTodo i = setTodos (filter (\<lambda>t. id_todo t \<noteq> i))"

text \<open>
  The effect \<^verbatim>\<open>localStorage.setItem("todos", JSON.stringify(todos))\<close> with the
  dependency \<^verbatim>\<open>[todos]\<close>, as run after a render. The call is not wrapped in
  \<^verbatim>\<open>try\<close>: when \<^verbatim>\<open>setItem\<close> raises, so does the effect.
\<close>

definition persist_effect :: "state \<Rightarrow> error \<times> state + state" where
  "persist_effect s =
     (if effect_dep s = Some (todos_ref s) then Inr s
      else setItem (JSON_stringify (todos s)) (s\<lparr>effect_dep := Some (todos_ref s)\<rparr>))"

text \<open>
  Mounting: the first render with the initial list \<open>ts\<close> (the list that the
  value of \<open>initial_todos\<close> stands for) and empty inputs, then the effect. \<open>q\<close> is the
  quota of the storage.
\<close>

definition mount :: "todo list \<Rightarrow> jsstring option \<Rightarrow> nat \<Rightarrow> error \<times> state + state" where
  "mount ts stored q =
     persist_effect
       \<lparr>todos = ts, todos_ref = 0, inputValue = [], inputDate = [], effect_dep = None,
        storage = stored, setItem_calls = [], quota = q\<rparr>"

text \<open>
  What the user does: typing into the text field, picking a date, pressing Add (or
  Enter), ticking a checkbox, pressing a delete button. Each event runs its handler,
  then the render and its effect. A run of events ends at the first one that raises.
\<close>

datatype event =
    ChangeText jsstring
  | ChangeDate jsstring
  | Add jsstring utc_time
  | Toggle jsstring
  | Delete jsstring

fun handle :: "event \<Rightarrow> state \<Rightarrow> state" where
  "handle (ChangeText v) s = setInputValue v s"
| "handle (ChangeDate v) s = setInputDate v s"
| "handle (Add uuid now) s = addTodo uuid now s"
| "handle (Toggle i) s = toggleTodo i s"
| "handle (Delete i) s = deleteTodo i s"

definition dispatch :: "event \<Rightarrow> state \<Rightarrow> error \<times> state + state" where
  "dispatch e s = persist_effect (handle e s)"

fun dispatch_all :: "event list \<Rightarrow> state \<Rightarrow> error \<times> state + state" where
  "dispatch_all [] s = Inr s"
| "dispatch_all (e # es) s =
     (case dispatch e s of Inl r \<Rightarrow> Inl r | Inr s' \<Rightarrow> dispatch_all es s')"

text \<open>
  The events that call \<^verbatim>\<open>setTodos\<close>: \<^verbatim>\<open>addTodo\<close> returns before it when the trimmed
  text is empty.
\<close>

fun mutating :: "event \<Rightarrow> state \<Rightarrow> bool" where
  "mutating (Add uuid now) s = (trim (inputValue s) \<noteq> [])"
| "mutating (Toggle i) s = True"
| "mutating (Delete i) s = True"
| "mutating (ChangeText v) s = False"
| "mutating (ChangeDate v) s = False"

text \<open>
  Along a run of events, every value that \<^verbatim>\<open>crypto.randomUUID()\<close> returned to an
  \<^verbatim>\<open>addTodo\<close> that went on to use it was the id of no task in the list at that moment.
  The code does not check this.
\<close>

fun fresh_ids :: "event list \<Rightarrow> state \<Rightarrow> bool" where
  "fresh_ids [] s = True"
| "fresh_ids (e # es) s =
     ((case e of
         Add uuid now \<Rightarrow> trim (inputValue s) = [] \<or> uuid \<notin> set (map id_todo (todos s))
       | _ \<Rightarrow> True)
      \<and> (case dispatch e s of Inl r \<Rightarrow> True | Inr s' \<Rightarrow> fresh_ids es s'))"

text \<open>
  The tokens of the serialization of a task and of a list of tasks: what the lexer
  reads back from it. They serve to state the round trip in two steps.
\<close>

definition todo_tokens :: "todo \<Rightarrow> token list" where
  "todo_tokens t =
     [TLBrace, TStr (js ''id''), TColon, TStr (id_todo t), TComma,
      TStr (js ''text''), TColon, TStr (text_todo t), TComma,
      TStr (js ''completed''), TColon, (if completed t then TTrue else TFalse), TComma,
      TStr (js ''date''), TColon, TStr (date t), TRBrace]"

fun todos_tokens :: "todo list \<Rightarrow> token list" where
  "todos_tokens [] = []"
| "todos_tokens [t] = todo_tokens t"
| "todos_tokens (t # u # ts) = todo_tokens t @ TComma # todos_tokens (u # ts)"

section \<open>Auxiliary facts\<close>

subsection \<open>Lists with a key\<close>

lemma map_if_distinct_key:
  assumes "distinct (map f xs)" and "k < length xs" and "f (xs ! k) = i"
  shows "map (\<lambda>t. if f t = i then g t else t) xs = xs[k := g (xs ! k)]"
proof (rule nth_equalityI)
  show "length (map (\<lambda>t. if f t = i then g t else t) xs) = length (xs[k := g (xs ! k)])"
    by simp
next
  fix j
  assume "j < length (map (\<lambda>t. if f t = i then g t else t) xs)"
  then have j: "j < length xs" by simp
  show "map (\<lambda>t. if f t = i then g t else t) xs ! j = xs[k := g (xs ! k)] ! j"
  proof (cases "j = k")
    case True
    with assms show ?thesis by simp
  next
    case False
    from assms(1) j assms(2) False have "map f xs ! j \<noteq> map f xs ! k"
      by (simp add: nth_eq_iff_index_eq del: nth_map)
    with j assms(2,3) have "f (xs ! j) \<noteq> i" by simp
    with j False show ?thesis by simp
  qed
qed

lemma toggle_twice_list:
  "map (\<lambda>t. if id_todo t = i then t\<lparr>completed := \<not> completed t\<rparr> else t)
     (map (\<lambda>t. if id_todo t = i then t\<lparr>completed := \<not> completed t\<rparr> else t) xs) = xs"
  by (induction xs) auto

lemma filter_distinct_key:
  assumes "distinct (map f xs)" and "k < length xs" and "f (xs ! k) = i"
  shows "filter (\<lambda>t. f t \<noteq> i) xs = take k xs @ drop (Suc k) xs"
  using assms
proof (induction xs arbitrary: k)
  case Nil
  then show ?case by simp
next
  case (Cons x xs)
  show ?case
  proof (cases k)
    case 0
    with Cons.prems have fx: "f x = i" by simp
    from Cons.prems(1) have "f x \<notin> f ` set xs" by simp
    with fx have "\<forall>t\<in>set xs. f t \<noteq> i" by (metis image_eqI)
    with 0 fx show ?thesis by simp
  next
    case (Suc k')
    with Cons.prems have k': "k' < length xs" and fk: "f (xs ! k') = i" by simp_all
    from k' have "xs ! k' \<in> set xs" by simp
    with Cons.prems(1) fk have "f x \<noteq> i" by force
    moreover from Cons.prems(1) have "distinct (map f xs)" by simp
    ultimately show ?thesis using Cons.IH[OF _ k' fk] Suc by simp
  qed
qed

lemma filter_absent_key: "i \<notin> f ` set xs \<Longrightarrow> filter (\<lambda>t. f t \<noteq> i) xs = xs"
  by (induction xs) auto

lemma length_filter_complement:
  "length (filter (\<lambda>t. f t \<noteq> i) xs) + length (filter (\<lambda>t. f t = i) xs) = length xs"
  by (induction xs) auto

lemma distinct_map_toggle:
  "map id_todo (map (\<lambda>t. if id_todo t = i then t\<lparr>completed := \<not> completed t\<rparr> else t) xs)
     = map id_todo xs"
  by (induction xs) auto

subsection \<open>The clock\<close>

lemma unat_digit: "unat (digit n) = 48 + n mod 10"
proof -
  have "48 + n mod 10 < 2 ^ LENGTH(16)" by simp
  then show ?thesis unfolding digit_def by (rule of_nat_inverse[OF refl])
qed

lemma digit_neq_T: "digit n \<noteq> 0x54"
proof
  assume "digit n = 0x54"
  then have "unat (digit n) = unat (0x54 :: 16 word)" by simp
  then show False by (simp add: unat_digit)
qed

lemma iso_date_no_T: "c \<in> set (iso_date d) \<Longrightarrow> c \<noteq> 0x54"
  by (auto simp add: iso_date_def iso_year_def pad2_def pad4_def pad6_def digit_neq_T
      split: if_splits)

lemma split_T_0_toISOString: "split_T_0 (toISOString d) = iso_date d"
  by (simp add: split_T_0_def toISOString_def takeWhile_append2 iso_date_no_T)

lemma iso_date_not_empty: "iso_date d \<noteq> []"
  by (simp add: iso_date_def)

subsection \<open>The handlers and the effect\<close>

lemma state_after_simps:
  "state_after (Inr s) = s" "state_after (Inl (e, s)) = s"
  by (simp_all add: state_after_def)

lemma todos_persist_effect: "todos (state_after (persist_effect s)) = todos s"
  by (simp add: persist_effect_def setItem_def Let_def state_after_simps)

lemma todos_dispatch: "todos (state_after (dispatch e s)) = todos (handle e s)"
  by (simp add: dispatch_def todos_persist_effect)

lemma todos_dispatch_Inr: "dispatch e s = Inr s' \<Longrightarrow> todos s' = todos (handle e s)"
  using todos_dispatch[of e s] by (simp add: state_after_simps)

lemma todos_dispatch_Inl: "dispatch e s = Inl (err, s') \<Longrightarrow> todos s' = todos (handle e s)"
  using todos_dispatch[of e s] by (simp add: state_after_simps)

lemma todos_toggleTodo:
  "todos (toggleTodo i s) =
     map (\<lambda>t. if id_todo t = i then t\<lparr>completed := \<not> completed t\<rparr> else t) (todos s)"
  by (simp add: toggleTodo_def setTodos_def)

lemma todos_deleteTodo: "todos (deleteTodo i s) = filter (\<lambda>t. id_todo t \<noteq> i) (todos s)"
  by (simp add: deleteTodo_def setTodos_def)

lemma todos_addTodo:
  "todos (addTodo uuid now s) =
     (if trim (inputValue s) = [] then todos s
      else todos s @
        [\<lparr>id_todo = uuid, text_todo = trim (inputValue s), completed = False,
          date = (if inputDate s \<noteq> [] then inputDate s else iso_date now)\<rparr>])"
  by (simp add: addTodo_def Let_def setTodos_def setInputValue_def setInputDate_def
      split_T_0_toISOString)

lemma dates_handle:
  assumes "\<forall>t\<in>set (todos s). date t \<noteq> []"
  shows "\<forall>t\<in>set (todos (handle e s)). date t \<noteq> []"
  using assms
  by (cases e)
     (auto simp add: todos_addTodo todos_toggleTodo todos_deleteTodo setInputValue_def
        setInputDate_def iso_date_not_empty)

lemma dates_dispatch_all:
  "\<forall>t\<in>set (todos s). date t \<noteq> [] \<Longrightarrow>
   \<forall>t\<in>set (todos (state_after (dispatch_all es s))). date t \<noteq> []"
proof (induction es arbitrary: s)
  case Nil
  then show ?case by (simp add: state_after_simps)
next
  case (Cons e es)
  from Cons.prems have h: "\<forall>t\<in>set (todos (handle e s)). date t \<noteq> []"
    by (rule dates_handle)
  show ?case
  proof (cases "dispatch e s")
    case (Inl r)
    obtain err s' where r: "r = (err, s')" by (cases r)
    with Inl h have "\<forall>t\<in>set (todos s'). date t \<noteq> []" by (simp add: todos_dispatch_Inl)
    with Inl r show ?thesis by (simp add: state_after_simps)
  next
    case (Inr s')
    with h have "\<forall>t\<in>set (todos s'). date t \<noteq> []" by (simp add: todos_dispatch_Inr)
    then have "\<forall>t\<in>set (todos (state_after (dispatch_all es s'))). date t \<noteq> []"
      by (rule Cons.IH)
    with Inr show ?thesis by simp
  qed
qed

lemma distinct_handle:
  assumes "distinct (map id_todo (todos s))" and "fresh_ids (e # es) s"
  shows "distinct (map id_todo (todos (handle e s)))"
  using assms
  by (cases e)
     (auto simp add: todos_addTodo todos_toggleTodo todos_deleteTodo setInputValue_def
        setInputDate_def distinct_map_toggle distinct_map_filter simp del: map_map)

lemma distinct_dispatch_all:
  "distinct (map id_todo (todos s)) \<Longrightarrow> fresh_ids es s \<Longrightarrow>
     distinct (map id_todo (todos (state_after (dispatch_all es s))))"
proof (induction es arbitrary: s)
  case Nil
  then show ?case by (simp add: state_after_simps)
next
  case (Cons e es)
  from Cons.prems have h: "distinct (map id_todo (todos (handle e s)))"
    by (rule distinct_handle)
  show ?case
  proof (cases "dispatch e s")
    case (Inl r)
    obtain err s' where r: "r = (err, s')" by (cases r)
    with Inl h have "distinct (map id_todo (todos s'))" by (simp add: todos_dispatch_Inl)
    with Inl r show ?thesis by (simp add: state_after_simps)
  next
    case (Inr s')
    with h have d: "distinct (map id_todo (todos s'))" by (simp add: todos_dispatch_Inr)
    from Cons.prems(2) Inr have "fresh_ids es s'" by simp
    with d have "distinct (map id_todo (todos (state_after (dispatch_all es s'))))"
      by (rule Cons.IH)
    with Inr show ?thesis by simp
  qed
qed

lemma todos_ref_handle:
  "todos_ref (handle e s) = (if mutating e s then Suc (todos_ref s) else todos_ref s)"
  by (cases e)
     (simp_all add: addTodo_def Let_def toggleTodo_def deleteTodo_def setTodos_def
        setInputValue_def setInputDate_def)

lemma env_handle:
  "effect_dep (handle e s) = effect_dep s \<and> storage (handle e s) = storage s
   \<and> setItem_calls (handle e s) = setItem_calls s \<and> quota (handle e s) = quota s"
  by (cases e)
     (simp_all add: addTodo_def Let_def toggleTodo_def deleteTodo_def setTodos_def
        setInputValue_def setInputDate_def)

lemma todos_handle_not_mutating: "\<not> mutating e s \<Longrightarrow> todos (handle e s) = todos s"
  by (cases e) (simp_all add: todos_addTodo setInputValue_def setInputDate_def)

text \<open>
  After a step that returns, the effect has run for the current array and the slot
  holds its serialization.
\<close>

lemma persist_effect_returns:
  assumes "persist_effect s = Inr s'"
    and "effect_dep s = Some (todos_ref s) \<longrightarrow> storage s = Some (JSON_stringify (todos s))"
  shows "effect_dep s' = Some (todos_ref s') \<and> storage s' = Some (JSON_stringify (todos s'))"
  using assms
  by (auto simp add: persist_effect_def setItem_def Let_def split: if_splits)

lemma dispatch_returns:
  assumes "dispatch e s = Inr s'"
    and "effect_dep s = Some (todos_ref s)" and "storage s = Some (JSON_stringify (todos s))"
  shows "effect_dep s' = Some (todos_ref s') \<and> storage s' = Some (JSON_stringify (todos s'))"
proof -
  have "effect_dep (handle e s) = Some (todos_ref (handle e s)) \<longrightarrow>
        storage (handle e s) = Some (JSON_stringify (todos (handle e s)))"
  proof (cases "mutating e s")
    case True
    with assms(2) show ?thesis by (simp add: env_handle todos_ref_handle)
  next
    case False
    with assms(3) show ?thesis by (simp add: env_handle todos_handle_not_mutating)
  qed
  with assms(1) show ?thesis unfolding dispatch_def by (rule persist_effect_returns)
qed

lemma dispatch_all_returns:
  "dispatch_all es s = Inr s' \<Longrightarrow> effect_dep s = Some (todos_ref s) \<Longrightarrow>
   storage s = Some (JSON_stringify (todos s)) \<Longrightarrow>
   effect_dep s' = Some (todos_ref s') \<and> storage s' = Some (JSON_stringify (todos s'))"
proof (induction es arbitrary: s)
  case Nil
  then show ?case by simp
next
  case (Cons e es)
  from Cons.prems(1) obtain s1 where d: "dispatch e s = Inr s1" and r: "dispatch_all es s1 = Inr s'"
    by (auto split: sum.splits)
  from dispatch_returns[OF d Cons.prems(2,3)] Cons.IH[OF r] show ?case by blast
qed

lemma mount_returns:
  "mount ts stored q = Inr s \<Longrightarrow>
   effect_dep s = Some (todos_ref s) \<and> storage s = Some (JSON_stringify (todos s))"
proof -
  assume "mount ts stored q = Inr s"
  then have "persist_effect
      \<lparr>todos = ts, todos_ref = 0, inputValue = [], inputDate = [], effect_dep = None,
       storage = stored, setItem_calls = [], quota = q\<rparr> = Inr s"
    by (simp add: mount_def)
  then show ?thesis by (rule persist_effect_returns) simp
qed

lemma dispatch_mutating:
  assumes "effect_dep s = Some (todos_ref s)" and "mutating e s"
  shows "dispatch e s =
           setItem (JSON_stringify (todos (handle e s)))
             ((handle e s)\<lparr>effect_dep := Some (todos_ref (handle e s))\<rparr>)"
  using assms by (simp add: dispatch_def persist_effect_def env_handle todos_ref_handle)

lemma dispatch_mutating_outcome:
  assumes "effect_dep s = Some (todos_ref s)" and "mutating e s"
  shows "(length (JSON_stringify (todos (handle e s))) \<le> quota s \<longrightarrow>
            (\<exists>s'. dispatch e s = Inr s'))
         \<and> (quota s < length (JSON_stringify (todos (handle e s))) \<longrightarrow>
            (\<exists>s'. dispatch e s = Inl (QuotaExceededError, s')))"
  by (simp add: dispatch_mutating[OF assms] setItem_def Let_def env_handle)

lemma dispatch_mutating_state:
  assumes "effect_dep s = Some (todos_ref s)" and "mutating e s"
  shows "setItem_calls (state_after (dispatch e s))
           = setItem_calls s @ [JSON_stringify (todos (handle e s))]
         \<and> storage (state_after (dispatch e s))
           = (if length (JSON_stringify (todos (handle e s))) \<le> quota s
              then Some (JSON_stringify (todos (handle e s))) else storage s)"
  by (simp add: dispatch_mutating[OF assms] setItem_def Let_def env_handle state_after_simps)

subsection \<open>Reading back a serialized list\<close>

lemma unat_hexdigit:
  assumes "n < 16"
  shows "unat (hexdigit n) = (if n < 10 then 48 + n else 87 + n)"
proof (cases "n < 10")
  case True
  then have "48 + n < 2 ^ LENGTH(16)" by simp
  then have "unat (of_nat (48 + n) :: 16 word) = 48 + n" by (rule of_nat_inverse[OF refl])
  with True show ?thesis by (simp add: hexdigit_def)
next
  case False
  from assms have "87 + n < 2 ^ LENGTH(16)" by simp
  then have "unat (of_nat (87 + n) :: 16 word) = 87 + n" by (rule of_nat_inverse[OF refl])
  with False show ?thesis by (simp add: hexdigit_def)
qed

lemma hexval_hexdigit: "n < 16 \<Longrightarrow> hexval (hexdigit n) = Some n"
  by (simp add: hexval_def word_le_nat_alt unat_hexdigit)

lemma hex_digits_sum:
  "(x::nat) div 4096 * 4096 + x div 256 mod 16 * 256 + x div 16 mod 16 * 16 + x mod 16 = x"
proof -
  define a where "a = x div 4096"
  define b where "b = x div 256 mod 16"
  define c where "c = x div 16 mod 16"
  define d where "d = x mod 16"
  define p where "p = x div 256"
  define q where "q = x div 16"
  have "q div 16 = p" unfolding p_def q_def by (simp add: div_mult2_eq)
  then have q: "q = p * 16 + c" unfolding c_def q_def[symmetric] by (metis div_mult_mod_eq)
  have "p div 16 = a" unfolding p_def a_def by (simp add: div_mult2_eq)
  then have p: "p = a * 16 + b" unfolding b_def p_def[symmetric] by (metis div_mult_mod_eq)
  have x: "x = q * 16 + d" unfolding q_def d_def by simp
  from x q p have "a * 4096 + b * 256 + c * 16 + d = x" by simp
  then show ?thesis unfolding a_def b_def c_def d_def .
qed


lemma lex_string_UnicodeEscape:
  "lex_string (UnicodeEscape c @ r) = map_option (\<lambda>(s, n). (c # s, n + 6)) (lex_string r)"
proof -
  have "unat c < 2 ^ LENGTH(16)" by (rule unsigned_less)
  then have "unat c div 4096 < 16" by simp
  then show ?thesis
    by (simp add: UnicodeEscape_def hexval_hexdigit hex_digits_sum)
qed

lemma surrogate_plain:
  assumes "is_lead c \<or> is_trail c"
  shows "c \<noteq> 0x22" and "c \<noteq> 0x5C" and "\<not> c < 0x20"
  using assms unfolding is_lead_def is_trail_def by unat_arith+

lemma lex_string_plain:
  "c \<noteq> 0x22 \<Longrightarrow> c \<noteq> 0x5C \<Longrightarrow> \<not> c < 0x20 \<Longrightarrow>
   lex_string (c # r) = map_option (\<lambda>(s, n). (c # s, n + 1)) (lex_string r)"
  by simp

lemma lex_string_quote_unit:
  "lex_string (quote_unit c @ r)
     = map_option (\<lambda>(s, n). (c # s, n + length (quote_unit c))) (lex_string r)"
proof -
  consider "c = 0x08" | "c = 0x09" | "c = 0x0A" | "c = 0x0C" | "c = 0x0D" | "c = 0x22"
    | "c = 0x5C"
    | "c \<notin> {0x08, 0x09, 0x0A, 0x0C, 0x0D, 0x22, 0x5C}" "c < 0x20 \<or> is_lead c \<or> is_trail c"
    | "c \<notin> {0x08, 0x09, 0x0A, 0x0C, 0x0D, 0x22, 0x5C}" "\<not> (c < 0x20 \<or> is_lead c \<or> is_trail c)"
    by blast
  then show ?thesis
  proof cases
    case 8
    then have "quote_unit c = UnicodeEscape c" by (simp add: quote_unit_def)
    moreover have "length (UnicodeEscape c) = 6" by (simp add: UnicodeEscape_def)
    ultimately show ?thesis by (simp only: lex_string_UnicodeEscape)
  next
    case 9
    then have "quote_unit c = [c]" by (simp add: quote_unit_def)
    with 9 show ?thesis by (simp add: lex_string_plain)
  qed (simp_all add: quote_unit_def unescape_def)
qed


lemma lex_string_quote_body:
  "lex_string (quote_body s @ 0x22 # rest) = Some (s, length (quote_body s) + 1)"
proof (induction s rule: quote_body.induct)
  case 1
  show ?case by simp
next
  case (2 c)
  show ?case by (simp add: lex_string_quote_unit del: lex_string.simps) simp
next
  case (3 c d cs)
  show ?case
  proof (cases "is_lead c \<and> is_trail d")
    case True
    then have c: "c \<noteq> 0x22" "c \<noteq> 0x5C" "\<not> c < 0x20"
      and d: "d \<noteq> 0x22" "d \<noteq> 0x5C" "\<not> d < 0x20"
      using surrogate_plain[of c] surrogate_plain[of d] by blast+
    have "lex_string (c # d # quote_body cs @ 0x22 # rest)
        = map_option (\<lambda>(s, n). (c # s, n + 1))
            (map_option (\<lambda>(s, n). (d # s, n + 1)) (lex_string (quote_body cs @ 0x22 # rest)))"
      by (simp only: lex_string_plain[OF c] lex_string_plain[OF d])
    with True 3 show ?thesis by simp
  next
    case False
    then have qb: "quote_body (c # d # cs) = quote_unit c @ quote_body (d # cs)" by auto
    from False 3 have ih: "lex_string (quote_body (d # cs) @ 0x22 # rest)
        = Some (d # cs, length (quote_body (d # cs)) + 1)"
      by blast
    show ?thesis unfolding qb
      by (simp add: lex_string_quote_unit ih del: lex_string.simps quote_body.simps)
  qed
qed

lemma lex_QuoteJSONString:
  "lex (QuoteJSONString s @ rest) = map_option (Cons (TStr s)) (lex rest)"
  by (simp add: QuoteJSONString_def lex_string_quote_body del: lex_string.simps)


lemma lex_SerializeJSONObject:
  "lex (SerializeJSONObject t @ rest) = map_option ((@) (todo_tokens t)) (lex rest)"
  by (cases "lex rest")
     (simp_all add: SerializeJSONObject_def todo_tokens_def lex_QuoteJSONString js_def)

lemma lex_join_comma:
  "lex (join_comma (map SerializeJSONObject ts) @ rest)
     = map_option ((@) (todos_tokens ts)) (lex rest)"
proof (induction ts rule: todos_tokens.induct)
  case 1
  show ?case by (simp add: option.map_ident)
next
  case (2 t)
  show ?case by (simp add: lex_SerializeJSONObject)
next
  case (3 t u ts)
  have "lex (js '','' @ join_comma (map SerializeJSONObject (u # ts)) @ rest)
      = map_option (Cons TComma) (lex (join_comma (map SerializeJSONObject (u # ts)) @ rest))"
    by (simp add: js_def)
  with 3 show ?case
    by (simp add: lex_SerializeJSONObject option.map_comp comp_def)
qed

lemma lex_JSON_stringify:
  "lex (JSON_stringify ts) = Some (TLBrack # todos_tokens ts @ [TRBrack])"
proof -
  have "lex (js '']'') = Some [TRBrack]" by (simp add: js_def)
  then have "lex (join_comma (map SerializeJSONObject ts) @ js '']'')
      = Some (todos_tokens ts @ [TRBrack])"
    by (simp add: lex_join_comma)
  then show ?thesis by (simp add: JSON_stringify_def js_def)
qed

lemma run_append:
  "run p (xs @ ys) = (case run p xs of None \<Rightarrow> None | Some p' \<Rightarrow> run p' ys)"
  by (induction xs arbitrary: p) (simp_all split: option.splits)

lemma run_todo_tokens:
  assumes "wants_value m"
  shows "run (PS m (InArr es # st)) (todo_tokens t)
           = Some (PS AfterValue (InArr (todo_value t # es) # st))"
  using assms by (simp add: todo_tokens_def todo_value_def wants_value_def js_def)

lemma run_todos_tokens:
  assumes "ts \<noteq> []" and "wants_value m"
  shows "run (PS m (InArr es # st)) (todos_tokens ts)
           = Some (PS AfterValue (InArr (rev (map todo_value ts) @ es) # st))"
  using assms
proof (induction ts arbitrary: m es rule: todos_tokens.induct)
  case 1
  then show ?case by simp
next
  case (2 t)
  then show ?case by (simp add: run_todo_tokens)
next
  case (3 t u ts)
  have w: "wants_value WantValue" by (simp add: wants_value_def)
  from 3 show ?case
    by (simp add: run_append run_todo_tokens "3.IH"[OF _ w] del: todos_tokens.simps(3))
       (simp add: run_append run_todo_tokens "3.IH"[OF _ w])
qed

lemma run_array:
  "run (PS WantValue []) (TLBrack # todos_tokens ts @ [TRBrack]) = Some (Done (todos_value ts))"
proof (cases ts)
  case Nil
  then show ?thesis by (simp add: wants_value_def todos_value_def)
next
  case (Cons t ts')
  then have "ts \<noteq> []" by simp
  then have "run (PS WantValueOrClose [InArr []]) (todos_tokens ts)
      = Some (PS AfterValue [InArr (rev (map todo_value ts))])"
    using run_todos_tokens[of ts WantValueOrClose "[]" "[]"] by (simp add: wants_value_def)
  then show ?thesis
    by (simp add: run_append wants_value_def todos_value_def)
qed

lemma JSON_parse_JSON_stringify: "JSON_parse (JSON_stringify ts) = Inr (todos_value ts)"
  by (simp add: JSON_parse_def lex_JSON_stringify run_array del: run.simps)

lemma todo_value_eq_iff: "(todo_value t = todo_value u) = (t = u)"
  by (cases t, cases u) (auto simp add: todo_value_def)

lemma todos_value_eq_iff: "(todos_value ts = todos_value us) = (ts = us)"
proof -
  have "inj todo_value" by (rule injI) (simp add: todo_value_eq_iff)
  then show ?thesis by (simp add: todos_value_def inj_map_eq_map)
qed

section \<open>The claims\<close>

subsection \<open>Loading\<close>

text \<open>
  Claim C1, as amended. When the storage slot is absent, or holds the empty string, the
  initializer yields the empty list and raises nothing. Any other stored text goes to
  \<^verbatim>\<open>JSON.parse\<close>: when that raises on the text, the initializer raises the same error,
  for nothing catches it.
\<close>

theorem initial_todos_absent_or_malformed:
  "initial_todos None = Inr (todos_value [])
   \<and> initial_todos (Some []) = Inr (todos_value [])
   \<and> (s \<noteq> [] \<and> JSON_parse s = Inl e \<longrightarrow> initial_todos (Some s) = Inl e)"
  by (simp add: initial_todos_def todos_value_def)

theorem initial_todos_absent_or_malformed_witness:
  "js ''{'' \<noteq> [] \<and> JSON_parse (js ''{'') = Inl SyntaxError
   \<and> initial_todos (Some (js ''{'')) = Inl SyntaxError"
proof -
  have h: "js ''{'' \<noteq> [] \<and> JSON_parse (js ''{'') = Inl SyntaxError"
    by (simp add: js_def JSON_parse_def wants_value_def)
  with initial_todos_absent_or_malformed[of "js ''{''" SyntaxError]
  have "initial_todos (Some (js ''{'')) = Inl SyntaxError" by blast
  with h show ?thesis by blast
qed

text \<open>
  Claim C1 as it is written fails: with the malformed text \<^verbatim>\<open>not json\<close> in the slot, the
  initializer raises \<^verbatim>\<open>SyntaxError\<close> instead of yielding the empty list.
\<close>

theorem initial_todos_malformed_raises:
  "initial_todos (Some (js ''not json'')) = Inl SyntaxError
   \<and> initial_todos (Some (js ''not json'')) \<noteq> Inr (todos_value [])"
  by (simp add: initial_todos_def JSON_parse_def js_def is_digit_def)

subsection \<open>Persistence\<close>

text \<open>
  Claim C2, as amended. In a mounted component whose effect has run, an event that
  mutates the list (Add with a text that is not blank, Toggle, Delete) makes exactly one
  call of \<^verbatim>\<open>setItem\<close>, after the handler, with the serialization of the list the handler
  has produced. When the storage accepts that text the event returns and the slot holds
  the serialization of the current list. When it does not, \<^verbatim>\<open>setItem\<close> raises
  \<^verbatim>\<open>QuotaExceededError\<close>, nothing catches it, and the slot keeps what it held. From
  mounting on, after every run of events that returns the slot holds the serialization
  of the current list.
\<close>

theorem mutation_calls_setItem_once:
  "(effect_dep s = Some (todos_ref s) \<and> mutating e s \<longrightarrow>
      setItem_calls (state_after (dispatch e s))
        = setItem_calls s @ [JSON_stringify (todos (handle e s))]
      \<and> todos (state_after (dispatch e s)) = todos (handle e s)
      \<and> (length (JSON_stringify (todos (handle e s))) \<le> quota s \<longrightarrow>
           (\<exists>s'. dispatch e s = Inr s')
           \<and> storage (state_after (dispatch e s))
               = Some (JSON_stringify (todos (state_after (dispatch e s)))))
      \<and> (quota s < length (JSON_stringify (todos (handle e s))) \<longrightarrow>
           (\<exists>s'. dispatch e s = Inl (QuotaExceededError, s'))
           \<and> storage (state_after (dispatch e s)) = storage s))
   \<and> (mount ts stored q = Inr s0 \<and> dispatch_all es s0 = Inr s1 \<longrightarrow>
        storage s1 = Some (JSON_stringify (todos s1)))"
proof (intro conjI impI)
  assume a: "effect_dep s = Some (todos_ref s) \<and> mutating e s"
  then have f: "effect_dep s = Some (todos_ref s)" and m: "mutating e s" by simp_all
  show "setItem_calls (state_after (dispatch e s))
      = setItem_calls s @ [JSON_stringify (todos (handle e s))]"
    using dispatch_mutating_state[OF f m] by simp
  show t: "todos (state_after (dispatch e s)) = todos (handle e s)"
    by (rule todos_dispatch)
  {
    assume le: "length (JSON_stringify (todos (handle e s))) \<le> quota s"
    with dispatch_mutating_outcome[OF f m] show "\<exists>s'. dispatch e s = Inr s'" by simp
    from le dispatch_mutating_state[OF f m] t
    show "storage (state_after (dispatch e s))
        = Some (JSON_stringify (todos (state_after (dispatch e s))))"
      by simp
  }
  {
    assume gt: "quota s < length (JSON_stringify (todos (handle e s)))"
    with dispatch_mutating_outcome[OF f m]
    show "\<exists>s'. dispatch e s = Inl (QuotaExceededError, s')" by simp
    from gt dispatch_mutating_state[OF f m]
    show "storage (state_after (dispatch e s)) = storage s" by simp
  }
next
  assume "mount ts stored q = Inr s0 \<and> dispatch_all es s0 = Inr s1"
  then have m: "mount ts stored q = Inr s0" and r: "dispatch_all es s0 = Inr s1" by simp_all
  from mount_returns[OF m] dispatch_all_returns[OF r]
  show "storage s1 = Some (JSON_stringify (todos s1))" by blast
qed

theorem mutation_calls_setItem_once_witness:
  "(let t = \<lparr>id_todo = js ''a'', text_todo = js ''milk'', completed = False, date = js ''2024-01-02''\<rparr>;
        s = \<lparr>todos = [t], todos_ref = 1, inputValue = [], inputDate = [], effect_dep = Some 1,
             storage = Some (JSON_stringify [t]), setItem_calls = [JSON_stringify [t]],
             quota = 100\<rparr>;
        e = Toggle (js ''a'');
        s2 = s\<lparr>quota := 60\<rparr>
    in effect_dep s = Some (todos_ref s) \<and> mutating e s
       \<and> length (JSON_stringify (todos (handle e s))) = 63
       \<and> setItem_calls (state_after (dispatch e s))
           = [JSON_stringify [t], JSON_stringify [t\<lparr>completed := True\<rparr>]]
       \<and> (\<exists>s'. dispatch e s = Inr s')
       \<and> storage (state_after (dispatch e s)) = Some (JSON_stringify [t\<lparr>completed := True\<rparr>])
       \<and> effect_dep s2 = Some (todos_ref s2) \<and> mutating e s2
       \<and> (\<exists>s'. dispatch e s2 = Inl (QuotaExceededError, s'))
       \<and> storage (state_after (dispatch e s2)) = Some (JSON_stringify [t])
       \<and> (\<exists>s0 s1. mount [] None 10 = Inr s0 \<and> dispatch_all [Toggle (js ''z'')] s0 = Inr s1
            \<and> storage s1 = Some (JSON_stringify [])))"
proof -
  let ?t = "\<lparr>id_todo = js ''a'', text_todo = js ''milk'', completed = False, date = js ''2024-01-02''\<rparr>"
  let ?s = "\<lparr>todos = [?t], todos_ref = 1, inputValue = [], inputDate = [], effect_dep = Some 1,
             storage = Some (JSON_stringify [?t]), setItem_calls = [JSON_stringify [?t]],
             quota = 100\<rparr>"
  let ?e = "Toggle (js ''a'')"
  let ?s2 = "?s\<lparr>quota := 60\<rparr>"
  have h: "effect_dep ?s = Some (todos_ref ?s) \<and> mutating ?e ?s" by simp
  have h2: "effect_dep ?s2 = Some (todos_ref ?s2) \<and> mutating ?e ?s2" by simp
  have t: "todos (handle ?e ?s) = [?t\<lparr>completed := True\<rparr>]"
    by (simp add: todos_toggleTodo)
  have t2: "todos (handle ?e ?s2) = [?t\<lparr>completed := True\<rparr>]"
    by (simp add: todos_toggleTodo)
  have n: "length (JSON_stringify [?t\<lparr>completed := True\<rparr>]) = 63"
    by (simp add: JSON_stringify_def SerializeJSONObject_def QuoteJSONString_def
        quote_unit_def is_lead_def is_trail_def js_def)
  from t n have le: "length (JSON_stringify (todos (handle ?e ?s))) \<le> quota ?s" by simp
  from t2 n have gt: "quota ?s2 < length (JSON_stringify (todos (handle ?e ?s2)))" by simp
  from mutation_calls_setItem_once[of ?s ?e] h le
  have c1: "setItem_calls (state_after (dispatch ?e ?s))
              = setItem_calls ?s @ [JSON_stringify (todos (handle ?e ?s))]
            \<and> (\<exists>s'. dispatch ?e ?s = Inr s')
            \<and> storage (state_after (dispatch ?e ?s))
                = Some (JSON_stringify (todos (state_after (dispatch ?e ?s))))
            \<and> todos (state_after (dispatch ?e ?s)) = todos (handle ?e ?s)"
    by blast
  from mutation_calls_setItem_once[of ?s2 ?e] h2 gt
  have c2: "(\<exists>s'. dispatch ?e ?s2 = Inl (QuotaExceededError, s'))
            \<and> storage (state_after (dispatch ?e ?s2)) = storage ?s2"
    by blast
  have m: "\<exists>s0 s1. mount [] None 10 = Inr s0 \<and> dispatch_all [Toggle (js ''z'')] s0 = Inr s1"
    by (simp add: mount_def dispatch_def persist_effect_def setItem_def Let_def
        toggleTodo_def setTodos_def JSON_stringify_def js_def)
  then obtain s0 s1 where m0: "mount [] None 10 = Inr s0"
    and m1: "dispatch_all [Toggle (js ''z'')] s0 = Inr s1" by blast
  from mutation_calls_setItem_once[of _ _ "[]" None 10 s0 "[Toggle (js ''z'')]" s1] m0 m1
  have st: "storage s1 = Some (JSON_stringify (todos s1))" by blast
  have "todos s1 = []"
    using m0 m1
    by (auto simp add: mount_def dispatch_def persist_effect_def setItem_def Let_def
        toggleTodo_def setTodos_def split: if_splits)
  with st m0 m1
  have c3: "\<exists>s0 s1. mount [] None 10 = Inr s0 \<and> dispatch_all [Toggle (js ''z'')] s0 = Inr s1
      \<and> storage s1 = Some (JSON_stringify [])"
    by auto
  from h h2 t n c1 c2 c3 show ?thesis by (simp add: Let_def)
qed

text \<open>
  Claim C2 as it is written fails. The list is empty, the slot holds \<^verbatim>\<open>[]\<close> and the
  storage accepts no text longer than five code units. Add of \<^verbatim>\<open>milk\<close> appends the task
  and calls \<^verbatim>\<open>setItem\<close> once, which raises: the slot still holds \<^verbatim>\<open>[]\<close>, not the
  serialization of the list of one task.
\<close>

theorem mutation_write_raises:
  "(let s = \<lparr>todos = [], todos_ref = 0, inputValue = js ''milk'', inputDate = js ''2024-01-02'',
             effect_dep = Some 0, storage = Some (js ''[]''), setItem_calls = [js ''[]''],
             quota = 5\<rparr>;
        now = \<lparr>year = 2026, month = 11, day = 2, hours = 23, minutes = 59, seconds = 1, millis = 7\<rparr>;
        t = \<lparr>id_todo = js ''b'', text_todo = js ''milk'', completed = False, date = js ''2024-01-02''\<rparr>;
        r = dispatch (Add (js ''b'') now) s
    in mutating (Add (js ''b'') now) s
       \<and> r = Inl (QuotaExceededError,
                 \<lparr>todos = [t], todos_ref = 1, inputValue = [], inputDate = [],
                  effect_dep = Some 1, storage = Some (js ''[]''),
                  setItem_calls = [js ''[]'', JSON_stringify [t]], quota = 5\<rparr>)
       \<and> storage (state_after r) = Some (js ''[]'')
       \<and> storage (state_after r) \<noteq> Some (JSON_stringify (todos (state_after r))))"
proof -
  let ?t = "\<lparr>id_todo = js ''b'', text_todo = js ''milk'', completed = False, date = js ''2024-01-02''\<rparr>"
  have n: "length (JSON_stringify [?t]) = 64"
    by (simp add: JSON_stringify_def SerializeJSONObject_def QuoteJSONString_def
        quote_unit_def is_lead_def is_trail_def js_def)
  have ne: "js ''[]'' \<noteq> JSON_stringify [?t]"
  proof
    assume "js ''[]'' = JSON_stringify [?t]"
    then have "length (js ''[]'') = length (JSON_stringify [?t])" by simp
    with n show False by (simp add: js_def)
  qed
  have tr: "trim (js ''milk'') = js ''milk''" by (simp add: trim_def is_trim_space_def js_def)
  have m: "js ''milk'' \<noteq> []" "js ''2024-01-02'' \<noteq> []" by (simp_all add: js_def)
  show ?thesis
    using n ne tr m
    by (simp add: Let_def dispatch_def persist_effect_def setItem_def addTodo_def setTodos_def
        setInputValue_def setInputDate_def state_after_simps)
qed

subsection \<open>Adding\<close>

text \<open>
  Claim C3, as amended. When the trimmed text of the input is not empty, Add lengthens
  the list by exactly one: the new task stands last, its text is the trimmed input, it
  is not completed, its id is the value \<^verbatim>\<open>crypto.randomUUID()\<close> returned, and its date
  is the date picked or, when none was picked, the calendar date (in UTC) of the instant
  of the call. The code does not compare the id with those of the list: the ids stay
  pairwise distinct when the value returned is the id of no task of the list.
\<close>

theorem addTodo_appends_new_task:
  assumes "trim (inputValue s) \<noteq> []"
  shows "todos (state_after (dispatch (Add uuid now) s)) =
           todos s @
             [\<lparr>id_todo = uuid, text_todo = trim (inputValue s), completed = False,
               date = (if inputDate s \<noteq> [] then inputDate s else iso_date now)\<rparr>]
         \<and> length (todos (state_after (dispatch (Add uuid now) s))) = length (todos s) + 1
         \<and> (distinct (map id_todo (todos s)) \<and> uuid \<notin> id_todo ` set (todos s) \<longrightarrow>
              distinct (map id_todo (todos (state_after (dispatch (Add uuid now) s)))))"
proof -
  from assms have eq: "todos (state_after (dispatch (Add uuid now) s)) =
      todos s @
        [\<lparr>id_todo = uuid, text_todo = trim (inputValue s), completed = False,
          date = (if inputDate s \<noteq> [] then inputDate s else iso_date now)\<rparr>]"
    by (simp add: todos_dispatch todos_addTodo)
  then show ?thesis by simp
qed

theorem addTodo_appends_new_task_witness:
  "(let t = \<lparr>id_todo = js ''a'', text_todo = js ''milk'', completed = True, date = js ''2024-01-02''\<rparr>;
        s = \<lparr>todos = [t], todos_ref = 1, inputValue = js ''  Buy eggs '', inputDate = [],
             effect_dep = Some 1, storage = None, setItem_calls = [], quota = 1000\<rparr>;
        now = \<lparr>year = 2026, month = 11, day = 2, hours = 23, minutes = 59, seconds = 1, millis = 7\<rparr>
    in trim (inputValue s) \<noteq> []
       \<and> todos (state_after (dispatch (Add (js ''b'') now) s)) =
           [t, \<lparr>id_todo = js ''b'', text_todo = js ''Buy eggs'', completed = False,
                date = js ''2026-11-02''\<rparr>]
       \<and> length (todos (state_after (dispatch (Add (js ''b'') now) s))) = 2
       \<and> distinct (map id_todo (todos (state_after (dispatch (Add (js ''b'') now) s)))))"
proof -
  let ?t = "\<lparr>id_todo = js ''a'', text_todo = js ''milk'', completed = True, date = js ''2024-01-02''\<rparr>"
  let ?s = "\<lparr>todos = [?t], todos_ref = 1, inputValue = js ''  Buy eggs '', inputDate = [],
             effect_dep = Some 1, storage = None, setItem_calls = [], quota = 1000\<rparr>"
  let ?now = "\<lparr>year = 2026, month = 11, day = 2, hours = 23, minutes = 59, seconds = 1, millis = 7\<rparr>"
  have tr: "trim (inputValue ?s) = js ''Buy eggs''"
    by (simp add: trim_def is_trim_space_def js_def)
  then have h: "trim (inputValue ?s) \<noteq> []" by (simp add: js_def)
  have d: "iso_date ?now = js ''2026-11-02''"
    by (simp add: iso_date_def iso_year_def pad2_def pad4_def digit_def js_def)
  have f: "distinct (map id_todo (todos ?s)) \<and> js ''b'' \<notin> id_todo ` set (todos ?s)"
    by (simp add: js_def)
  from addTodo_appends_new_task[OF h, of "js ''b''" ?now] f tr d h show ?thesis
    by (simp add: Let_def)
qed

text \<open>
  Claim C3 as it is written fails in its promise of a fresh unique id. When the
  generator returns \<^verbatim>\<open>a\<close> and the list holds a task with the id \<^verbatim>\<open>a\<close>, Add appends a
  second task with that id.
\<close>

theorem addTodo_id_not_fresh:
  "(let t = \<lparr>id_todo = js ''a'', text_todo = js ''milk'', completed = True, date = js ''2024-01-02''\<rparr>;
        s = \<lparr>todos = [t], todos_ref = 1, inputValue = js ''eggs'', inputDate = js ''2024-01-03'',
             effect_dep = Some 1, storage = None, setItem_calls = [], quota = 1000\<rparr>;
        now = \<lparr>year = 2026, month = 11, day = 2, hours = 23, minutes = 59, seconds = 1, millis = 7\<rparr>;
        s' = state_after (dispatch (Add (js ''a'') now) s)
    in trim (inputValue s) \<noteq> []
       \<and> todos s' =
           [t, \<lparr>id_todo = js ''a'', text_todo = js ''eggs'', completed = False,
                date = js ''2024-01-03''\<rparr>]
       \<and> id_todo (last (todos s')) \<in> id_todo ` set (todos s)
       \<and> \<not> distinct (map id_todo (todos s')))"
proof -
  have tr: "trim (js ''eggs'') = js ''eggs''" by (simp add: trim_def is_trim_space_def js_def)
  have m: "js ''eggs'' \<noteq> []" "js ''2024-01-03'' \<noteq> []" by (simp_all add: js_def)
  show ?thesis using tr m by (simp add: Let_def todos_dispatch todos_addTodo)
qed

text \<open>
  Claim C6. When the trimmed text of the input is empty (the input is empty or holds
  white space only), Add changes nothing: the handler returns the state it was given,
  no task is created, nothing is raised, and in a component whose effect has run the
  event returns that same state, nothing written.
\<close>

theorem addTodo_blank_is_noop:
  assumes "trim (inputValue s) = []"
  shows "handle (Add uuid now) s = s
         \<and> (effect_dep s = Some (todos_ref s) \<longrightarrow> dispatch (Add uuid now) s = Inr s)"
proof -
  from assms have "handle (Add uuid now) s = s" by (simp add: addTodo_def)
  then show ?thesis by (simp add: dispatch_def persist_effect_def)
qed

theorem addTodo_blank_is_noop_witness:
  "(let s0 = \<lparr>todos = [], todos_ref = 0, inputValue = [], inputDate = [],
              effect_dep = Some 0, storage = Some (js ''[]''), setItem_calls = [js ''[]''],
              quota = 1000\<rparr>;
        s3 = s0\<lparr>inputValue := js ''   ''\<rparr>;
        now = \<lparr>year = 2026, month = 11, day = 2, hours = 23, minutes = 59, seconds = 1, millis = 7\<rparr>
    in trim (inputValue s0) = [] \<and> dispatch (Add (js ''b'') now) s0 = Inr s0
       \<and> trim (inputValue s3) = [] \<and> dispatch (Add (js ''b'') now) s3 = Inr s3)"
proof -
  let ?s0 = "\<lparr>todos = [], todos_ref = 0, inputValue = [], inputDate = [],
              effect_dep = Some 0, storage = Some (js ''[]''), setItem_calls = [js ''[]''],
              quota = 1000\<rparr>"
  let ?s3 = "?s0\<lparr>inputValue := js ''   ''\<rparr>"
  let ?now = "\<lparr>year = 2026, month = 11, day = 2, hours = 23, minutes = 59, seconds = 1, millis = 7\<rparr>"
  have h0: "trim (inputValue ?s0) = []" by (simp add: trim_def)
  have h3: "trim (inputValue ?s3) = []" by (simp add: trim_def is_trim_space_def js_def)
  have f0: "effect_dep ?s0 = Some (todos_ref ?s0)" by simp
  have f3: "effect_dep ?s3 = Some (todos_ref ?s3)" by simp
  from addTodo_blank_is_noop[OF h0, of "js ''b''" ?now] f0
  have c0: "dispatch (Add (js ''b'') ?now) ?s0 = Inr ?s0" by blast
  from addTodo_blank_is_noop[OF h3, of "js ''b''" ?now] f3
  have c3: "dispatch (Add (js ''b'') ?now) ?s3 = Inr ?s3" by blast
  from h0 h3 c0 c3 show ?thesis unfolding Let_def by blast
qed

subsection \<open>Toggling and deleting\<close>

text \<open>
  Claim C4. In a list with pairwise distinct ids, Toggle on the id of the task at
  position \<open>k\<close> replaces that task by itself with \<open>completed\<close> negated, and leaves every
  other position and every other field as it was. Toggle twice on the same id gives the
  list back: so for the handler applied twice, and so for the second event after a first
  one that has returned.
\<close>

theorem toggleTodo_flips_only_that_task:
  assumes "distinct (map id_todo (todos s))" and "k < length (todos s)"
    and "id_todo (todos s ! k) = i"
  shows "todos (state_after (dispatch (Toggle i) s)) =
           (todos s)[k := (todos s ! k)\<lparr>completed := \<not> completed (todos s ! k)\<rparr>]
         \<and> todos (toggleTodo i (toggleTodo i s)) = todos s
         \<and> (\<forall>s'. dispatch (Toggle i) s = Inr s' \<longrightarrow>
               todos (state_after (dispatch (Toggle i) s')) = todos s)"
proof (intro conjI allI impI)
  show "todos (state_after (dispatch (Toggle i) s)) =
          (todos s)[k := (todos s ! k)\<lparr>completed := \<not> completed (todos s ! k)\<rparr>]"
    using map_if_distinct_key[OF assms, of "\<lambda>t. t\<lparr>completed := \<not> completed t\<rparr>"]
    by (simp add: todos_dispatch todos_toggleTodo)
  show "todos (toggleTodo i (toggleTodo i s)) = todos s"
    by (simp add: todos_toggleTodo toggle_twice_list del: map_map)
next
  fix s'
  assume "dispatch (Toggle i) s = Inr s'"
  then have "todos s' = todos (toggleTodo i s)" using todos_dispatch_Inr by fastforce
  then show "todos (state_after (dispatch (Toggle i) s')) = todos s"
    by (simp add: todos_dispatch todos_toggleTodo toggle_twice_list del: map_map)
qed

theorem toggleTodo_flips_only_that_task_witness:
  "(let a = \<lparr>id_todo = js ''a'', text_todo = js ''milk'', completed = False, date = js ''2024-01-02''\<rparr>;
        b = \<lparr>id_todo = js ''b'', text_todo = js ''eggs'', completed = True, date = js ''2024-01-03''\<rparr>;
        s = \<lparr>todos = [a, b], todos_ref = 2, inputValue = [], inputDate = [], effect_dep = Some 2,
             storage = None, setItem_calls = [], quota = 1000\<rparr>
    in distinct (map id_todo (todos s)) \<and> 1 < length (todos s) \<and> id_todo (todos s ! 1) = js ''b''
       \<and> todos (state_after (dispatch (Toggle (js ''b'')) s)) = [a, b\<lparr>completed := False\<rparr>]
       \<and> todos (toggleTodo (js ''b'') (toggleTodo (js ''b'') s)) = [a, b]
       \<and> (\<exists>s'. dispatch (Toggle (js ''b'')) s = Inr s'
             \<and> todos (state_after (dispatch (Toggle (js ''b'')) s')) = [a, b]))"
proof -
  let ?a = "\<lparr>id_todo = js ''a'', text_todo = js ''milk'', completed = False, date = js ''2024-01-02''\<rparr>"
  let ?b = "\<lparr>id_todo = js ''b'', text_todo = js ''eggs'', completed = True, date = js ''2024-01-03''\<rparr>"
  let ?s = "\<lparr>todos = [?a, ?b], todos_ref = 2, inputValue = [], inputDate = [], effect_dep = Some 2,
             storage = None, setItem_calls = [], quota = 1000\<rparr>"
  have h1: "distinct (map id_todo (todos ?s))" by (simp add: js_def)
  have h2: "1 < length (todos ?s)" by simp
  have h3: "id_todo (todos ?s ! 1) = js ''b''" by simp
  have t: "todos (handle (Toggle (js ''b'')) ?s) = [?a, ?b\<lparr>completed := False\<rparr>]"
    by (simp add: todos_toggleTodo js_def)
  have "length (JSON_stringify [?a, ?b\<lparr>completed := False\<rparr>]) \<le> 1000"
    by (simp add: JSON_stringify_def SerializeJSONObject_def QuoteJSONString_def
        quote_unit_def is_lead_def is_trail_def js_def)
  with t have "length (JSON_stringify (todos (handle (Toggle (js ''b'')) ?s))) \<le> quota ?s"
    by simp
  moreover have "effect_dep ?s = Some (todos_ref ?s)" and "mutating (Toggle (js ''b'')) ?s"
    by simp_all
  ultimately obtain s' where r: "dispatch (Toggle (js ''b'')) ?s = Inr s'"
    using dispatch_mutating_outcome[of ?s "Toggle (js ''b'')"] by blast
  from toggleTodo_flips_only_that_task[OF h1 h2 h3]
  have c: "todos (state_after (dispatch (Toggle (js ''b'')) ?s)) =
             (todos ?s)[1 := (todos ?s ! 1)\<lparr>completed := \<not> completed (todos ?s ! 1)\<rparr>]
           \<and> todos (toggleTodo (js ''b'') (toggleTodo (js ''b'') ?s)) = todos ?s
           \<and> (\<forall>s'. dispatch (Toggle (js ''b'')) ?s = Inr s' \<longrightarrow>
                 todos (state_after (dispatch (Toggle (js ''b'')) s')) = todos ?s)"
    by blast
  with r have "todos (state_after (dispatch (Toggle (js ''b'')) s')) = todos ?s" by blast
  with r have e: "\<exists>s'. dispatch (Toggle (js ''b'')) ?s = Inr s'
      \<and> todos (state_after (dispatch (Toggle (js ''b'')) s')) = [?a, ?b]"
    by auto
  from c h1 h2 h3 e show ?thesis by (simp add: Let_def)
qed

text \<open>
  Claim C5. In a list with pairwise distinct ids, Delete on the id of the task at
  position \<open>k\<close> yields the list without that position, the others in their order: the
  list is shorter by exactly one and no task of it has the id. Delete on an id that no
  task has leaves the list as it was.
\<close>

theorem deleteTodo_removes_the_task:
  "(distinct (map id_todo (todos s)) \<and> k < length (todos s) \<and> id_todo (todos s ! k) = i \<longrightarrow>
      todos (state_after (dispatch (Delete i) s)) = take k (todos s) @ drop (Suc k) (todos s)
      \<and> length (todos (state_after (dispatch (Delete i) s))) + 1 = length (todos s)
      \<and> i \<notin> id_todo ` set (todos (state_after (dispatch (Delete i) s))))
   \<and> (i \<notin> id_todo ` set (todos s) \<longrightarrow> todos (state_after (dispatch (Delete i) s)) = todos s)"
proof (intro conjI impI)
  assume a: "distinct (map id_todo (todos s)) \<and> k < length (todos s) \<and> id_todo (todos s ! k) = i"
  then have eq: "filter (\<lambda>t. id_todo t \<noteq> i) (todos s) = take k (todos s) @ drop (Suc k) (todos s)"
    by (simp add: filter_distinct_key)
  then show "todos (state_after (dispatch (Delete i) s))
      = take k (todos s) @ drop (Suc k) (todos s)"
    by (simp add: todos_dispatch todos_deleteTodo)
  from a have "length (take k (todos s) @ drop (Suc k) (todos s)) + 1 = length (todos s)"
    by auto
  with eq show "length (todos (state_after (dispatch (Delete i) s))) + 1 = length (todos s)"
    by (simp only: todos_dispatch handle.simps todos_deleteTodo)
  show "i \<notin> id_todo ` set (todos (state_after (dispatch (Delete i) s)))"
    by (auto simp add: todos_dispatch todos_deleteTodo)
next
  assume "i \<notin> id_todo ` set (todos s)"
  then show "todos (state_after (dispatch (Delete i) s)) = todos s"
    by (simp add: todos_dispatch todos_deleteTodo filter_absent_key)
qed

theorem deleteTodo_removes_the_task_witness:
  "(let a = \<lparr>id_todo = js ''a'', text_todo = js ''milk'', completed = False, date = js ''2024-01-02''\<rparr>;
        b = \<lparr>id_todo = js ''b'', text_todo = js ''eggs'', completed = True, date = js ''2024-01-03''\<rparr>;
        c = \<lparr>id_todo = js ''c'', text_todo = js ''tea'', completed = False, date = js ''2024-01-04''\<rparr>;
        s = \<lparr>todos = [a, b, c], todos_ref = 3, inputValue = [], inputDate = [],
             effect_dep = Some 3, storage = None, setItem_calls = [], quota = 1000\<rparr>
    in distinct (map id_todo (todos s)) \<and> 1 < length (todos s) \<and> id_todo (todos s ! 1) = js ''b''
       \<and> todos (state_after (dispatch (Delete (js ''b'')) s)) = [a, c]
       \<and> js ''z'' \<notin> id_todo ` set (todos s)
       \<and> todos (state_after (dispatch (Delete (js ''z'')) s)) = [a, b, c])"
proof -
  let ?a = "\<lparr>id_todo = js ''a'', text_todo = js ''milk'', completed = False, date = js ''2024-01-02''\<rparr>"
  let ?b = "\<lparr>id_todo = js ''b'', text_todo = js ''eggs'', completed = True, date = js ''2024-01-03''\<rparr>"
  let ?c = "\<lparr>id_todo = js ''c'', text_todo = js ''tea'', completed = False, date = js ''2024-01-04''\<rparr>"
  let ?s = "\<lparr>todos = [?a, ?b, ?c], todos_ref = 3, inputValue = [], inputDate = [],
             effect_dep = Some 3, storage = None, setItem_calls = [], quota = 1000\<rparr>"
  have h: "distinct (map id_todo (todos ?s)) \<and> 1 < length (todos ?s)
           \<and> id_todo (todos ?s ! 1) = js ''b''"
    by (simp add: js_def)
  have z: "js ''z'' \<notin> id_todo ` set (todos ?s)" by (simp add: js_def)
  from deleteTodo_removes_the_task[of ?s 1 "js ''b''"] h
  have d1: "todos (state_after (dispatch (Delete (js ''b'')) ?s))
      = take 1 (todos ?s) @ drop (Suc 1) (todos ?s)"
    by blast
  from deleteTodo_removes_the_task[of ?s 0 "js ''z''"] z
  have d2: "todos (state_after (dispatch (Delete (js ''z'')) ?s)) = todos ?s" by blast
  from h z d1 d2 show ?thesis by (simp add: Let_def)
qed

text \<open>
  Claim C9. Delete removes every task that has the id, not the first one only: the
  length of the list falls by the number of tasks with that id, and none with it
  remains.
\<close>

theorem deleteTodo_removes_every_match:
  "length (todos (state_after (dispatch (Delete i) s)))
     + length (filter (\<lambda>t. id_todo t = i) (todos s))
     = length (todos s)
   \<and> i \<notin> id_todo ` set (todos (state_after (dispatch (Delete i) s)))"
proof
  show "length (todos (state_after (dispatch (Delete i) s)))
      + length (filter (\<lambda>t. id_todo t = i) (todos s))
      = length (todos s)"
    by (simp add: todos_dispatch todos_deleteTodo length_filter_complement)
  show "i \<notin> id_todo ` set (todos (state_after (dispatch (Delete i) s)))"
    by (auto simp add: todos_dispatch todos_deleteTodo)
qed

theorem deleteTodo_removes_every_match_witness:
  "(let a = \<lparr>id_todo = js ''a'', text_todo = js ''milk'', completed = False, date = js ''2024-01-02''\<rparr>;
        b = \<lparr>id_todo = js ''b'', text_todo = js ''eggs'', completed = True, date = js ''2024-01-03''\<rparr>;
        a' = \<lparr>id_todo = js ''a'', text_todo = js ''tea'', completed = False, date = js ''2024-01-04''\<rparr>;
        s = \<lparr>todos = [a, b, a'], todos_ref = 3, inputValue = [], inputDate = [],
             effect_dep = Some 3, storage = None, setItem_calls = [], quota = 1000\<rparr>
    in length (filter (\<lambda>t. id_todo t = js ''a'') (todos s)) = 2
       \<and> length (todos s) = 3
       \<and> length (todos (state_after (dispatch (Delete (js ''a'')) s))) = 1)"
proof -
  let ?a = "\<lparr>id_todo = js ''a'', text_todo = js ''milk'', completed = False, date = js ''2024-01-02''\<rparr>"
  let ?b = "\<lparr>id_todo = js ''b'', text_todo = js ''eggs'', completed = True, date = js ''2024-01-03''\<rparr>"
  let ?a' = "\<lparr>id_todo = js ''a'', text_todo = js ''tea'', completed = False, date = js ''2024-01-04''\<rparr>"
  let ?s = "\<lparr>todos = [?a, ?b, ?a'], todos_ref = 3, inputValue = [], inputDate = [],
             effect_dep = Some 3, storage = None, setItem_calls = [], quota = 1000\<rparr>"
  have n: "length (filter (\<lambda>t. id_todo t = js ''a'') (todos ?s)) = 2 \<and> length (todos ?s) = 3"
    by (simp add: js_def)
  from deleteTodo_removes_every_match[of "js ''a''" ?s]
  have "length (todos (state_after (dispatch (Delete (js ''a'')) ?s)))
          + length (filter (\<lambda>t. id_todo t = js ''a'') (todos ?s)) = length (todos ?s)"
    by blast
  with n have "length (todos (state_after (dispatch (Delete (js ''a'')) ?s))) = 1" by arith
  with n show ?thesis by (simp add: Let_def)
qed

subsection \<open>Invariants of the list\<close>

text \<open>
  Claim C7, as amended. From a list with pairwise distinct ids, after any finite run of
  events (Add, Toggle, Delete, and typing between them) the ids are pairwise distinct,
  provided that each value \<^verbatim>\<open>crypto.randomUUID()\<close> handed to an Add that used it was the
  id of no task of the list at that moment. The code does not check this, and it does
  not keep the ids of deleted tasks: such an id may come again.
\<close>

theorem ids_stay_distinct:
  "distinct (map id_todo (todos s)) \<Longrightarrow> fresh_ids es s \<Longrightarrow>
     distinct (map id_todo (todos (state_after (dispatch_all es s))))"
  by (rule distinct_dispatch_all)

theorem ids_stay_distinct_witness:
  "(let a = \<lparr>id_todo = js ''a'', text_todo = js ''milk'', completed = False, date = js ''2024-01-02''\<rparr>;
        s = \<lparr>todos = [a], todos_ref = 1, inputValue = [], inputDate = [],
             effect_dep = Some 1, storage = None, setItem_calls = [], quota = 1000\<rparr>;
        now = \<lparr>year = 2026, month = 11, day = 2, hours = 23, minutes = 59, seconds = 1, millis = 7\<rparr>;
        es = [ChangeText (js ''eggs''), Add (js ''b'') now, Toggle (js ''a''), Delete (js ''a''),
              ChangeText (js ''tea''), Add (js ''a'') now]
    in distinct (map id_todo (todos s)) \<and> fresh_ids es s
       \<and> distinct (map id_todo (todos (state_after (dispatch_all es s))))
       \<and> map id_todo (todos (state_after (dispatch_all es s))) = [js ''b'', js ''a''])"
proof -
  let ?a = "\<lparr>id_todo = js ''a'', text_todo = js ''milk'', completed = False, date = js ''2024-01-02''\<rparr>"
  let ?s = "\<lparr>todos = [?a], todos_ref = 1, inputValue = [], inputDate = [],
             effect_dep = Some 1, storage = None, setItem_calls = [], quota = 1000\<rparr>"
  let ?now = "\<lparr>year = 2026, month = 11, day = 2, hours = 23, minutes = 59, seconds = 1, millis = 7\<rparr>"
  let ?es = "[ChangeText (js ''eggs''), Add (js ''b'') ?now, Toggle (js ''a''), Delete (js ''a''),
              ChangeText (js ''tea''), Add (js ''a'') ?now]"
  let ?b = "\<lparr>id_todo = js ''b'', text_todo = js ''eggs'', completed = False, date = js ''2026-11-02''\<rparr>"
  let ?c = "\<lparr>id_todo = js ''a'', text_todo = js ''tea'', completed = False, date = js ''2026-11-02''\<rparr>"
  note str = JSON_stringify_def SerializeJSONObject_def QuoteJSONString_def quote_unit_def
    is_lead_def is_trail_def js_def
  note ev = dispatch_def persist_effect_def setItem_def Let_def addTodo_def toggleTodo_def
    deleteTodo_def setTodos_def setInputValue_def setInputDate_def trim_def is_trim_space_def
    split_T_0_toISOString iso_date_def iso_year_def pad2_def pad4_def digit_def js_def
    state_after_simps
  have q1: "length (JSON_stringify [?a, ?b]) \<le> 1000" by (simp add: str)
  have q2: "length (JSON_stringify [?a\<lparr>completed := True\<rparr>, ?b]) \<le> 1000" by (simp add: str)
  have q3: "length (JSON_stringify [?b]) \<le> 1000" by (simp add: str)
  have q4: "length (JSON_stringify [?b, ?c]) \<le> 1000" by (simp add: str)
  have h1: "distinct (map id_todo (todos ?s))" by simp
  have h2: "fresh_ids ?es ?s" using q1 q2 q3 q4 by (simp add: ev)
  have v: "map id_todo (todos (state_after (dispatch_all ?es ?s))) = [js ''b'', js ''a'']"
    using q1 q2 q3 q4 by (simp add: ev)
  from ids_stay_distinct[OF h1 h2] h1 h2 v show ?thesis unfolding Let_def by blast
qed

text \<open>
  Claim C7 as it is written fails. The ids \<^verbatim>\<open>a\<close> and \<^verbatim>\<open>b\<close> of the list are distinct;
  the generator returns \<^verbatim>\<open>b\<close> to an Add, and the run, which returns, ends with two tasks
  of the id \<^verbatim>\<open>b\<close>.
\<close>

theorem ids_collide:
  "(let a = \<lparr>id_todo = js ''a'', text_todo = js ''milk'', completed = False, date = js ''2024-01-02''\<rparr>;
        b = \<lparr>id_todo = js ''b'', text_todo = js ''eggs'', completed = False, date = js ''2024-01-03''\<rparr>;
        s = \<lparr>todos = [a, b], todos_ref = 2, inputValue = [], inputDate = [],
             effect_dep = Some 2, storage = None, setItem_calls = [], quota = 1000\<rparr>;
        now = \<lparr>year = 2026, month = 11, day = 2, hours = 23, minutes = 59, seconds = 1, millis = 7\<rparr>;
        es = [ChangeText (js ''tea''), Add (js ''b'') now, Toggle (js ''a'')]
    in distinct (map id_todo (todos s))
       \<and> (\<exists>s'. dispatch_all es s = Inr s')
       \<and> map id_todo (todos (state_after (dispatch_all es s))) = [js ''a'', js ''b'', js ''b'']
       \<and> \<not> distinct (map id_todo (todos (state_after (dispatch_all es s)))))"
proof -
  let ?a = "\<lparr>id_todo = js ''a'', text_todo = js ''milk'', completed = False, date = js ''2024-01-02''\<rparr>"
  let ?b = "\<lparr>id_todo = js ''b'', text_todo = js ''eggs'', completed = False, date = js ''2024-01-03''\<rparr>"
  let ?c = "\<lparr>id_todo = js ''b'', text_todo = js ''tea'', completed = False, date = js ''2026-11-02''\<rparr>"
  note str = JSON_stringify_def SerializeJSONObject_def QuoteJSONString_def quote_unit_def
    is_lead_def is_trail_def js_def
  have q1: "length (JSON_stringify [?a, ?b, ?c]) \<le> 1000" by (simp add: str)
  have q2: "length (JSON_stringify [?a\<lparr>completed := True\<rparr>, ?b, ?c]) \<le> 1000"
    by (simp add: str)
  show ?thesis
    using q1 q2
    by (simp add: dispatch_def persist_effect_def setItem_def Let_def addTodo_def toggleTodo_def
        setTodos_def setInputValue_def setInputDate_def trim_def is_trim_space_def
        split_T_0_toISOString iso_date_def iso_year_def pad2_def pad4_def digit_def js_def
        state_after_simps)
qed

text \<open>
  Claim C10. A date input that is the empty string is treated as no date: the new task
  gets the calendar date of the instant of the call, which is never the empty string.
  Hence, from a list whose tasks all have a date that is not empty, every task of the
  list has such a date after any run of events.
\<close>

theorem empty_date_replaced_by_today:
  "(trim (inputValue s) \<noteq> [] \<and> inputDate s = [] \<longrightarrow>
      date (last (todos (state_after (dispatch (Add uuid now) s)))) = iso_date now)
   \<and> iso_date now \<noteq> []
   \<and> ((\<forall>t\<in>set (todos s). date t \<noteq> []) \<longrightarrow>
        (\<forall>t\<in>set (todos (state_after (dispatch_all es s))). date t \<noteq> []))"
proof (intro conjI impI)
  assume "trim (inputValue s) \<noteq> [] \<and> inputDate s = []"
  then show "date (last (todos (state_after (dispatch (Add uuid now) s)))) = iso_date now"
    by (simp add: todos_dispatch todos_addTodo)
next
  show "iso_date now \<noteq> []" by (rule iso_date_not_empty)
next
  assume "\<forall>t\<in>set (todos s). date t \<noteq> []"
  then show "\<forall>t\<in>set (todos (state_after (dispatch_all es s))). date t \<noteq> []"
    by (rule dates_dispatch_all)
qed

theorem empty_date_replaced_by_today_witness:
  "(let a = \<lparr>id_todo = js ''a'', text_todo = js ''milk'', completed = False, date = js ''2024-01-02''\<rparr>;
        s = \<lparr>todos = [a], todos_ref = 1, inputValue = js ''eggs'', inputDate = [],
             effect_dep = Some 1, storage = None, setItem_calls = [], quota = 1000\<rparr>;
        now = \<lparr>year = 2026, month = 11, day = 2, hours = 23, minutes = 59, seconds = 1, millis = 7\<rparr>;
        es = [Add (js ''b'') now, Toggle (js ''a'')]
    in trim (inputValue s) \<noteq> [] \<and> inputDate s = []
       \<and> date (last (todos (state_after (dispatch (Add (js ''b'') now) s)))) = js ''2026-11-02''
       \<and> list_all (\<lambda>t. date t \<noteq> []) (todos s)
       \<and> list_all (\<lambda>t. date t \<noteq> []) (todos (state_after (dispatch_all es s))))"
proof -
  let ?a = "\<lparr>id_todo = js ''a'', text_todo = js ''milk'', completed = False, date = js ''2024-01-02''\<rparr>"
  let ?s = "\<lparr>todos = [?a], todos_ref = 1, inputValue = js ''eggs'', inputDate = [],
             effect_dep = Some 1, storage = None, setItem_calls = [], quota = 1000\<rparr>"
  let ?now = "\<lparr>year = 2026, month = 11, day = 2, hours = 23, minutes = 59, seconds = 1, millis = 7\<rparr>"
  let ?es = "[Add (js ''b'') ?now, Toggle (js ''a'')]"
  have h1: "trim (inputValue ?s) \<noteq> [] \<and> inputDate ?s = []"
    by (simp add: trim_def is_trim_space_def js_def)
  have h2: "\<forall>t\<in>set (todos ?s). date t \<noteq> []" by (simp add: js_def)
  have d: "iso_date ?now = js ''2026-11-02''"
    by (simp add: iso_date_def iso_year_def pad2_def pad4_def digit_def js_def)
  from empty_date_replaced_by_today[of ?s "js ''b''" ?now ?es] h1 h2
  have "date (last (todos (state_after (dispatch (Add (js ''b'') ?now) ?s)))) = iso_date ?now
        \<and> (\<forall>t\<in>set (todos (state_after (dispatch_all ?es ?s))). date t \<noteq> [])"
    by blast
  with h1 h2 d show ?thesis unfolding Let_def list_all_iff by simp
qed

subsection \<open>Serialization\<close>

text \<open>
  Claim C8. For every list of tasks, \<^verbatim>\<open>JSON.parse\<close> applied to the text that
  \<^verbatim>\<open>JSON.stringify\<close> produces for the list returns the value of that very list, and so
  does the initializer when the slot holds that text. Two lists have the same value
  only when they are the same list: the same tasks (id, text, completed, date) in the
  same order.
\<close>

theorem stringify_parse_round_trip:
  "JSON_parse (JSON_stringify ts) = Inr (todos_value ts)
   \<and> initial_todos (Some (JSON_stringify ts)) = Inr (todos_value ts)
   \<and> (todos_value ts = todos_value us) = (ts = us)"
proof (intro conjI)
  show p: "JSON_parse (JSON_stringify ts) = Inr (todos_value ts)"
    by (rule JSON_parse_JSON_stringify)
  have "JSON_stringify ts \<noteq> []" by (simp add: JSON_stringify_def js_def)
  with p show "initial_todos (Some (JSON_stringify ts)) = Inr (todos_value ts)"
    by (simp add: initial_todos_def)
  show "(todos_value ts = todos_value us) = (ts = us)"
    by (rule todos_value_eq_iff)
qed

theorem stringify_parse_round_trip_witness:
  "(let t = \<lparr>id_todo = js ''a'', text_todo = js ''tea'' @ [0x0A] @ js ''milk'', completed = False,
             date = js ''2024-01-02''\<rparr>;
        text = js ''[{\"id\":\"a\",\"text\":\"tea'' @ [0x5C, 0x6E]
               @ js ''milk\",\"completed\":false,\"date\":\"2024-01-02\"}]''
    in JSON_stringify [t] = text
       \<and> JSON_parse text =
           Inr (JArr [JObj [(js ''id'', JStr (js ''a'')),
                            (js ''text'', JStr (js ''tea'' @ [0x0A] @ js ''milk'')),
                            (js ''completed'', JBool False),
                            (js ''date'', JStr (js ''2024-01-02''))]]))"
proof -
  let ?t = "\<lparr>id_todo = js ''a'', text_todo = js ''tea'' @ [0x0A] @ js ''milk'', completed = False,
             date = js ''2024-01-02''\<rparr>"
  let ?text = "js ''[{\"id\":\"a\",\"text\":\"tea'' @ [0x5C, 0x6E]
               @ js ''milk\",\"completed\":false,\"date\":\"2024-01-02\"}]''"
  have e: "JSON_stringify [?t] = ?text"
    by (simp add: JSON_stringify_def SerializeJSONObject_def QuoteJSONString_def
        quote_unit_def is_lead_def is_trail_def js_def)
  from stringify_parse_round_trip[of "[?t]"]
  have "JSON_parse (JSON_stringify [?t]) = Inr (todos_value [?t])" by blast
  with e have "JSON_parse ?text = Inr (todos_value [?t])" by simp
  with e show ?thesis by (simp add: Let_def todos_value_def todo_value_def)
qed

end
